theory Spec2Isabelle
  imports Main "HOL-Library.Multiset"
begin

section \<open>Data model\<close>

text \<open>
  A photo of the collection (\<open>UnsplashPhotoResource\<close> of \<open>etc/types\<close>), with the fields
  the sources read: \<open>id\<close>, \<open>color\<close> and \<open>urls.full\<close>.
\<close>

record UnsplashPhotoResource =
  photo_id :: string
  color :: string
  urls_full :: string

text \<open>The cache entry of \<open>lib/photos\<close>: \<open>interface CollectionCache\<close>.\<close>

record CollectionCache =
  photos :: "UnsplashPhotoResource list"
  updatedAt :: int

text \<open>
  The persistent store (\<open>lib/storage\<close>), seen through the two keys \<open>getPhotos\<close> uses and
  at the types it reads them at: \<open>getItem<CollectionCache>('photoCollection')\<close> and
  \<open>getItem<string>('name')\<close>. A key that is absent is \<open>None\<close>: \<open>storage.keys()\<close> does
  not list it and \<open>getItem\<close> gives \<open>null\<close>.
\<close>

record storage =
  photoCollection :: "CollectionCache option"
  name :: "string option"

definition COLLECTION_CACHE_KEY :: string where
  "COLLECTION_CACHE_KEY = ''photoCollection''"

section \<open>JavaScript numbers and arrays, as far as the component uses them\<close>

text \<open>
  Every number the component computes with is an integer (an index, a day count, a
  millisecond timestamp) or \<open>NaN\<close>, which \<open>x % 0\<close> produces and which every later
  operation propagates.
\<close>

datatype number = Num int | NaN

text \<open>The \<open>%\<close> operator: the remainder takes the sign of the dividend; \<open>x % 0\<close> is \<open>NaN\<close>.\<close>

fun js_rem :: "number \<Rightarrow> number \<Rightarrow> number" where
  "js_rem (Num a) (Num b) = (if b = 0 then NaN else Num (sgn a * (\<bar>a\<bar> mod \<bar>b\<bar>)))"
| "js_rem _ _ = NaN"

fun js_add :: "number \<Rightarrow> number \<Rightarrow> number" where
  "js_add (Num a) (Num b) = Num (a + b)"
| "js_add _ _ = NaN"

fun js_sub :: "number \<Rightarrow> number \<Rightarrow> number" where
  "js_sub (Num a) (Num b) = Num (a - b)"
| "js_sub _ _ = NaN"

text \<open>
  \<open>arr[i]\<close>: the element when \<open>i\<close> is an index of the array, \<open>undefined\<close> (here
  \<open>None\<close>) otherwise, also for \<open>NaN\<close> and for a negative \<open>i\<close>.
\<close>

fun js_get :: "'a list \<Rightarrow> number \<Rightarrow> 'a option" where
  "js_get arr (Num i) = (if 0 \<le> i \<and> i < int (length arr) then Some (arr ! nat i) else None)"
| "js_get arr NaN = None"

section \<open>Helpers of \<open>lib/utils\<close> and \<open>lib/time\<close>\<close>

text \<open>
  Modelled from the spec: \<open>modIndex\<close> of \<open>lib/utils\<close>, which the component imports and
  whose file is not among the sources. The spec gives its formula,
  \<open>normalizedIndex = ((index % length) + length) % length\<close>, with JavaScript's \<open>%\<close>.
\<close>

definition modIndex :: "number \<Rightarrow> 'a list \<Rightarrow> number" where
  "modIndex i arr =
     (let len = Num (int (length arr)) in js_rem (js_add (js_rem i len) len) len)"

text \<open>
  Modelled from the spec: \<open>sinceEpoch('days')\<close> of \<open>lib/time\<close>, not among the sources:
  the number of whole days since the Unix epoch, in UTC. \<open>now\<close> is \<open>Date.now()\<close>, the
  milliseconds since the epoch; a UTC day has 86400000 of them.
\<close>

definition msPerDay :: int where
  "msPerDay = 86400000"

definition sinceEpoch_days :: "int \<Rightarrow> number" where
  "sinceEpoch_days now = Num (now div msPerDay)"

text \<open>The index \<open>componentDidMount\<close> computes: \<open>modIndex(sinceEpoch('days'), photos)\<close>.\<close>

definition dayIndex :: "int \<Rightarrow> 'a list \<Rightarrow> number" where
  "dayIndex now arr = modIndex (sinceEpoch_days now) arr"

section \<open>Promises, effects and the world of \<open>getPhotos\<close>\<close>

text \<open>
  The rejection of \<open>client.get('/images')\<close>, with its message: the remote source gave no
  collection. The reads of the store are taken to succeed, so nothing else in
  \<open>getPhotos\<close> raises.
\<close>

datatype error = SourceUnavailable string

fun message :: "error \<Rightarrow> string" where
  "message (SourceUnavailable m) = m"

text \<open>How a promise ends: with a value, with an error, or never.\<close>

datatype 'a promise = Fulfilled 'a | Rejected error | Pending

text \<open>
  The effects that are recorded, in the order they are issued: the request
  \<open>client.get('/images')\<close>, a call of \<open>storage.setItem\<close> with its key and value, and a line
  of \<open>console.error\<close>.
\<close>

datatype effect = Fetch | SetItem string CollectionCache | ConsoleError string

text \<open>
  The world \<open>getPhotos\<close> runs in: the store, the effects so far, and the number of calls of
  \<open>fetchAndUpdateCollection\<close> whose request is out and that no caller awaits.
\<close>

record world =
  store :: storage
  trace :: "effect list"
  floating :: nat

text \<open>
  What the environment decides during one call: how the request ends, what \<open>Date.now()\<close>
  returns at the staleness check, in \<open>fetchAndUpdateCollection\<close> once the response is
  there and in \<open>sinceEpoch\<close>, and whether the write of \<open>storage.setItem\<close> reaches the
  store.
\<close>

record env =
  response :: "UnsplashPhotoResource list promise"
  checkedAt :: int
  fetchedAt :: int
  indexedAt :: int
  writeOk :: bool

text \<open>
  \<open>shuffleSeed.shuffle\<close> is the package \<open>shuffle-seed\<close>, not code of this repository: a
  parameter of the model. Its seed is what \<open>storage.getItem('name')\<close> gave, \<open>null\<close> (here
  \<open>None\<close>) when the key is absent.
\<close>

type_synonym shuffler = "UnsplashPhotoResource list \<Rightarrow> string option \<Rightarrow> UnsplashPhotoResource list"

section \<open>\<open>getPhotos\<close>\<close>

text \<open>
  \<open>storage.setItem(COLLECTION_CACHE_KEY, cacheData)\<close>: the call is issued and its promise
  dropped, so a write that fails changes nothing and raises nothing.
\<close>

definition setItem :: "env \<Rightarrow> CollectionCache \<Rightarrow> world \<Rightarrow> world" where
  "setItem e cacheData w =
     w\<lparr>trace := trace w @ [SetItem COLLECTION_CACHE_KEY cacheData],
       store := (if writeOk e then (store w)\<lparr>photoCollection := Some cacheData\<rparr> else store w)\<rparr>"

text \<open>
  \<open>fetchAndUpdateCollection\<close> runs in two parts. Called, it issues the request and
  suspends at its \<open>await\<close>.
\<close>

definition fetchAndUpdateCollection_request :: "world \<Rightarrow> world" where
  "fetchAndUpdateCollection_request w = w\<lparr>trace := trace w @ [Fetch]\<rparr>"

text \<open>
  Once the request has ended it goes on: a rejection is its own rejection; a response is
  wrapped with \<open>updatedAt: Date.now()\<close>, handed to \<open>storage.setItem\<close> and returned.
\<close>

definition fetchAndUpdateCollection_resume :: "env \<Rightarrow> world \<Rightarrow> CollectionCache promise \<times> world" where
  "fetchAndUpdateCollection_resume e w =
     (case response e of
        Pending \<Rightarrow> (Pending, w)
      | Rejected err \<Rightarrow> (Rejected err, w)
      | Fulfilled ps \<Rightarrow>
          (let cacheData = \<lparr>photos = ps, updatedAt = fetchedAt e\<rparr>
           in (Fulfilled cacheData, setItem e cacheData w)))"

text \<open>The call a caller awaits: both parts in a row.\<close>

definition fetchAndUpdateCollection :: "env \<Rightarrow> world \<Rightarrow> CollectionCache promise \<times> world" where
  "fetchAndUpdateCollection e w =
     fetchAndUpdateCollection_resume e (fetchAndUpdateCollection_request w)"

text \<open>
  The call nobody awaits (line 60): the request is issued, the rest is left floating.
\<close>

definition fetchAndUpdateCollection_floating :: "world \<Rightarrow> world" where
  "fetchAndUpdateCollection_floating w =
     (fetchAndUpdateCollection_request w)\<lparr>floating := Suc (floating w)\<rparr>"

text \<open>
  The floating calls run on when their request has ended, after \<open>getPhotos\<close> has returned
  or while it waits for the store; a request that never ends leaves them floating.
\<close>

definition settle_floating :: "env \<Rightarrow> world \<Rightarrow> world" where
  "settle_floating e w =
     (case response e of
        Pending \<Rightarrow> w
      | _ \<Rightarrow> (((\<lambda>v. snd (fetchAndUpdateCollection_resume e v)) ^^ floating w) w)\<lparr>floating := 0\<rparr>)"

text \<open>
  \<open>getPhotos\<close>. \<open>ttl\<close> is \<open>ms(CACHE_TTL)\<close>, a constant of \<open>etc/constants\<close> that is not
  among the sources. The test \<open>storageKeys.includes(COLLECTION_CACHE_KEY)\<close> and the read
  \<open>storage.getItem(COLLECTION_CACHE_KEY)\<close> see the same store, so they are one case
  distinction here: \<open>None\<close> is the empty cache (line 48), \<open>Some\<close> the cached data
  (line 56).
\<close>

definition getPhotos :: "shuffler \<Rightarrow> int \<Rightarrow> env \<Rightarrow> world \<Rightarrow> UnsplashPhotoResource list promise \<times> world" where
  "getPhotos shuffle ttl e w =
     (case photoCollection (store w) of
        None \<Rightarrow>
          (let (fetched, w') = fetchAndUpdateCollection e w
           in (map_promise (\<lambda>cacheData. shuffle (photos cacheData) (name (store w'))) fetched, w'))
      | Some cachedData \<Rightarrow>
          (let w' = (if ttl \<le> checkedAt e - updatedAt cachedData
                     then fetchAndUpdateCollection_floating w else w)
           in (Fulfilled (shuffle (photos cachedData) (name (store w'))), w')))"

section \<open>The \<open>Splash\<close> component\<close>

text \<open>
  \<open>interface SplashState\<close>, and the component: its state and whether mousetrap holds its
  bindings for the arrow keys.
\<close>

record SplashState =
  state_photos :: "UnsplashPhotoResource list"
  index :: number
  showSwatch :: bool

record Splash =
  state :: SplashState
  shortcuts :: bool

definition initial :: Splash where
  "initial = \<lparr>state = \<lparr>state_photos = [], index = Num 0, showSwatch = False\<rparr>, shortcuts = False\<rparr>"

text \<open>\<open>dev\<close> is \<open>process.env.NODE_ENV === 'development'\<close>.\<close>

definition enableKeyboardShortcuts :: "bool \<Rightarrow> Splash \<Rightarrow> Splash" where
  "enableKeyboardShortcuts dev c = (if dev then c\<lparr>shortcuts := True\<rparr> else c)"

text \<open>
  The two handlers \<open>enableKeyboardShortcuts\<close> binds. A key pressed while nothing is bound
  does nothing.
\<close>

definition pressLeft :: "Splash \<Rightarrow> Splash" where
  "pressLeft c =
     (if shortcuts c
      then c\<lparr>state := (state c)\<lparr>index :=
             modIndex (js_sub (index (state c)) (Num 1)) (state_photos (state c))\<rparr>\<rparr>
      else c)"

definition pressRight :: "Splash \<Rightarrow> Splash" where
  "pressRight c =
     (if shortcuts c
      then c\<lparr>state := (state c)\<lparr>index :=
             modIndex (js_add (index (state c)) (Num 1)) (state_photos (state c))\<rparr>\<rparr>
      else c)"

text \<open>
  \<open>getPhoto\<close>: \<open>src\<close> is the query parameter \<open>src\<close>, truthy when it is a string that is
  not empty. \<open>None\<close> is \<open>undefined\<close>, for which \<open>render\<close> returns the empty \<open>div\<close>.
\<close>

definition getPhoto :: "bool \<Rightarrow> string option \<Rightarrow> SplashState \<Rightarrow> UnsplashPhotoResource option" where
  "getPhoto dev src st =
     (case src of
        Some s \<Rightarrow>
          (if dev \<and> s \<noteq> []
           then Some \<lparr>photo_id = ''SRC'', color = ''black'', urls_full = s\<rparr>
           else js_get (state_photos st) (index st))
      | None \<Rightarrow> js_get (state_photos st) (index st))"

text \<open>
  \<open>componentDidMount\<close>: the \<open>catch\<close> logs the message of a rejection and leaves the
  component as it was; while \<open>getPhotos\<close> has not returned, nothing happens.
\<close>

definition componentDidMount :: "bool \<Rightarrow> shuffler \<Rightarrow> int \<Rightarrow> env \<Rightarrow> Splash \<times> world \<Rightarrow> Splash \<times> world" where
  "componentDidMount dev shuffle ttl e cw =
     (let (c, w) = cw in
      case getPhotos shuffle ttl e w of
        (Fulfilled ps, w') \<Rightarrow>
          (let i = modIndex (sinceEpoch_days (indexedAt e)) ps
           in (enableKeyboardShortcuts dev (c\<lparr>state := (state c)\<lparr>state_photos := ps, index := i\<rparr>\<rparr>), w'))
      | (Rejected err, w') \<Rightarrow> (c, w'\<lparr>trace := trace w' @ [ConsoleError (message err)]\<rparr>)
      | (Pending, w') \<Rightarrow> (c, w'))"

text \<open>What happens to a mounted component, and a run of such events from a state.\<close>

datatype action = Mount env | KeyLeft | KeyRight | Settle env

fun step :: "bool \<Rightarrow> shuffler \<Rightarrow> int \<Rightarrow> Splash \<times> world \<Rightarrow> action \<Rightarrow> Splash \<times> world" where
  "step dev shuffle ttl cw (Mount e) = componentDidMount dev shuffle ttl e cw"
| "step dev shuffle ttl (c, w) KeyLeft = (pressLeft c, w)"
| "step dev shuffle ttl (c, w) KeyRight = (pressRight c, w)"
| "step dev shuffle ttl (c, w) (Settle e) = (c, settle_floating e w)"

definition run :: "bool \<Rightarrow> shuffler \<Rightarrow> int \<Rightarrow> Splash \<times> world \<Rightarrow> action list \<Rightarrow> Splash \<times> world" where
  "run dev shuffle ttl cw acts = foldl (step dev shuffle ttl) cw acts"

section \<open>Preloading\<close>

text \<open>
  What the browser does with an \<open>Image\<close> whose \<open>src\<close> is set, by URL: it fires \<open>onload\<close>
  or \<open>onerror\<close> some time after the call, or neither.
\<close>

datatype image = Loaded nat | Failed nat | Stalled

type_synonym browser = "string \<Rightarrow> image"

text \<open>
  Why a preload is rejected: the error event of an image, or the \<open>TypeError\<close> of reading
  \<open>urls\<close> of \<open>undefined\<close>. A preload ends resolved or rejected at a time, or not at all.
\<close>

datatype reason = ImageLoadError string | TypeError

datatype settlement = ResolvedAt nat | RejectedAt nat reason | Unsettled

definition preloadImage :: "browser \<Rightarrow> string \<Rightarrow> settlement" where
  "preloadImage b imgUrl =
     (case b imgUrl of
        Loaded t \<Rightarrow> ResolvedAt t
      | Failed t \<Rightarrow> RejectedAt t (ImageLoadError imgUrl)
      | Stalled \<Rightarrow> Unsettled)"

text \<open>
  \<open>Promise.all\<close>: rejected with the first rejection among its promises, whatever the
  others do; resolved when the last of them is, if none is rejected.
\<close>

fun first_rejection :: "settlement list \<Rightarrow> (nat \<times> reason) option" where
  "first_rejection [] = None"
| "first_rejection (RejectedAt t r # ps) =
     (case first_rejection ps of
        None \<Rightarrow> Some (t, r)
      | Some (t', r') \<Rightarrow> (if t' < t then Some (t', r') else Some (t, r)))"
| "first_rejection (_ # ps) = first_rejection ps"

fun last_resolution :: "settlement list \<Rightarrow> nat option" where
  "last_resolution [] = Some 0"
| "last_resolution (ResolvedAt t # ps) = map_option (max t) (last_resolution ps)"
| "last_resolution (_ # ps) = None"

definition promise_all :: "settlement list \<Rightarrow> settlement" where
  "promise_all ps =
     (case first_rejection ps of
        Some (t, r) \<Rightarrow> RejectedAt t r
      | None \<Rightarrow> (case last_resolution ps of Some t \<Rightarrow> ResolvedAt t | None \<Rightarrow> Unsettled))"

text \<open>
  \<open>preloadNeighboringPhotos\<close>, with the URLs it asks the browser for. Reading
  \<open>urls\<close> of a photo that is \<open>undefined\<close> throws, which rejects the \<open>async\<close> function at
  once.
\<close>

definition preloadNeighboringPhotos :: "bool \<Rightarrow> browser \<Rightarrow> SplashState \<Rightarrow> settlement \<times> string list" where
  "preloadNeighboringPhotos dev b st =
     (case js_get (state_photos st) (modIndex (js_add (index st) (Num 1)) (state_photos st)) of
        None \<Rightarrow> (RejectedAt 0 TypeError, [])
      | Some nextPhoto \<Rightarrow>
          (if dev then
             (case js_get (state_photos st) (modIndex (js_sub (index st) (Num 1)) (state_photos st)) of
                None \<Rightarrow> (RejectedAt 0 TypeError, [urls_full nextPhoto])
              | Some prevPhoto \<Rightarrow>
                  (promise_all [preloadImage b (urls_full nextPhoto), preloadImage b (urls_full prevPhoto)],
                   [urls_full nextPhoto, urls_full prevPhoto]))
           else (promise_all [preloadImage b (urls_full nextPhoto)], [urls_full nextPhoto])))"

section \<open>Example data\<close>

text \<open>Three photos, two shufflers and a store, for the concrete runs below.\<close>

definition photo_a :: UnsplashPhotoResource where
  "photo_a = \<lparr>photo_id = ''a'', color = ''#a0a0a0'', urls_full = ''https://images.example/a''\<rparr>"

definition photo_b :: UnsplashPhotoResource where
  "photo_b = \<lparr>photo_id = ''b'', color = ''#b0b0b0'', urls_full = ''https://images.example/b''\<rparr>"

definition photo_c :: UnsplashPhotoResource where
  "photo_c = \<lparr>photo_id = ''c'', color = ''#c0c0c0'', urls_full = ''https://images.example/c''\<rparr>"

definition in_order :: shuffler where
  "in_order xs seed = xs"

definition reversed :: shuffler where
  "reversed xs seed = rev xs"

text \<open>A store with no entry at all, and one that holds a collection cached at time 1000.\<close>

definition empty_world :: world where
  "empty_world = \<lparr>store = \<lparr>photoCollection = None, name = None\<rparr>, trace = [], floating = 0\<rparr>"

definition cached_world :: world where
  "cached_world =
     \<lparr>store = \<lparr>photoCollection = Some \<lparr>photos = [photo_a, photo_b], updatedAt = 1000\<rparr>,
               name = Some ''amber''\<rparr>,
      trace = [], floating = 0\<rparr>"

text \<open>
  Environments: the request answers with one photo, with no photo, with an error, or
  never; the staleness check reads the clock at \<open>checkedAt\<close>.
\<close>

definition answering :: "UnsplashPhotoResource list \<Rightarrow> int \<Rightarrow> bool \<Rightarrow> env" where
  "answering ps t ok =
     \<lparr>response = Fulfilled ps, checkedAt = t, fetchedAt = t + 500, indexedAt = t + 600, writeOk = ok\<rparr>"

definition failing :: "int \<Rightarrow> env" where
  "failing t =
     \<lparr>response = Rejected (SourceUnavailable ''Network Error''), checkedAt = t, fetchedAt = t + 500,
      indexedAt = t + 600, writeOk = True\<rparr>"

definition hanging :: "int \<Rightarrow> env" where
  "hanging t =
     \<lparr>response = Pending, checkedAt = t, fetchedAt = t + 500, indexedAt = t + 600, writeOk = True\<rparr>"


definition mounted :: "UnsplashPhotoResource list \<Rightarrow> int \<Rightarrow> Splash" where
  "mounted ps i = \<lparr>state = \<lparr>state_photos = ps, index = Num i, showSwatch = False\<rparr>, shortcuts = True\<rparr>"

definition example_browser :: browser where
  "example_browser imgUrl =
     (if imgUrl = urls_full photo_c then Loaded 5
      else if imgUrl = urls_full photo_a then Failed 3
      else Stalled)"

section \<open>Normalisation\<close>

lemma js_rem_pos:
  assumes "0 \<le> a" and "0 < n"
  shows "js_rem (Num a) (Num n) = Num (a mod n)"
  using assms by (simp add: sgn_if)

lemma modIndex_Num:
  assumes "arr \<noteq> []"
  shows "modIndex (Num i) arr = Num (i mod int (length arr))"
proof -
  define n where "n = int (length arr)"
  have n: "0 < n" using assms by (simp add: n_def)
  define r where "r = sgn i * (\<bar>i\<bar> mod n)"
  have r1: "js_rem (Num i) (Num n) = Num r"
    using n by (simp add: r_def)
  have cong: "(r + n) mod n = i mod n"
  proof (cases "0 \<le> i")
    case True
    then have "r = i mod n \<or> (i = 0 \<and> r = 0)" by (auto simp: r_def sgn_if)
    then show ?thesis by auto
  next
    case False
    then have "r = - ((- i) mod n)" by (simp add: r_def sgn_if)
    then have "(r + n) mod n = (- ((- i) mod n)) mod n" by simp
    also have "\<dots> = (- (- i)) mod n" by (simp add: mod_minus_eq)
    finally show ?thesis by simp
  qed
  have m: "0 \<le> \<bar>i\<bar> mod n" "\<bar>i\<bar> mod n < n"
    using n by simp_all
  have lo: "- n < r"
    using m by (cases "0 < i") (auto simp: r_def sgn_if)
  have r2: "js_rem (Num (r + n)) (Num n) = Num ((r + n) mod n)"
    using lo n by (intro js_rem_pos) auto
  show ?thesis
    unfolding modIndex_def Let_def n_def [symmetric]
    using r1 r2 cong by simp
qed

lemma modIndex_range:
  assumes "arr \<noteq> []"
  shows "\<exists>k. modIndex (Num i) arr = Num k \<and> 0 \<le> k \<and> k < int (length arr)"
  using assms by (simp add: modIndex_Num)

section \<open>The day index\<close>

text \<open>
  C3. For a collection that is not empty, the day index is the number of days since the
  Unix epoch (UTC) modulo the length of the collection; it lies in \<open>[0, length)\<close>; two
  timestamps of the same UTC day give the same index; and a timestamp of the next UTC
  day gives the index advanced by one modulo the length, that is \<open>0\<close> after the last
  position and the next position otherwise. It is the index \<open>componentDidMount\<close> stores
  with the photos (\<open>componentDidMount_dayIndex\<close> below).
\<close>

theorem dayIndex_rotation:
  assumes "arr \<noteq> []"
  shows "dayIndex now arr = Num ((now div msPerDay) mod int (length arr))
       \<and> 0 \<le> (now div msPerDay) mod int (length arr)
       \<and> (now div msPerDay) mod int (length arr) < int (length arr)
       \<and> (\<forall>now'. now' div msPerDay = now div msPerDay \<longrightarrow> dayIndex now' arr = dayIndex now arr)
       \<and> (\<forall>now'. now' div msPerDay = now div msPerDay + 1 \<longrightarrow>
            dayIndex now' arr = modIndex (js_add (dayIndex now arr) (Num 1)) arr
          \<and> dayIndex now' arr =
              (if (now div msPerDay) mod int (length arr) = int (length arr) - 1 then Num 0
               else Num ((now div msPerDay) mod int (length arr) + 1)))"
proof -
  define n where "n = int (length arr)"
  define d where "d = now div msPerDay"
  have n: "0 < n" using assms by (simp add: n_def)
  have eq: "\<And>t. dayIndex t arr = Num ((t div msPerDay) mod n)"
    using assms by (simp add: dayIndex_def sinceEpoch_days_def modIndex_Num n_def)
  have rng: "0 \<le> d mod n" "d mod n < n" using n by simp_all
  have "(d + 1) mod n = (d mod n + 1) mod n"
    by (simp add: mod_add_left_eq)
  also have "\<dots> = (if d mod n = n - 1 then 0 else d mod n + 1)"
    using rng by simp
  finally have succ: "(d + 1) mod n = (if d mod n = n - 1 then 0 else d mod n + 1)" .
  have step: "modIndex (js_add (Num (d mod n)) (Num 1)) arr = Num ((d + 1) mod n)"
    using assms by (simp add: modIndex_Num n_def [symmetric] mod_add_left_eq)
  show ?thesis
    unfolding n_def [symmetric] d_def [symmetric] eq
    using rng succ step by (auto simp: d_def)
qed

theorem dayIndex_rotation_witness:
  "[0, 1, 2 :: nat] \<noteq> []
   \<and> dayIndex 432000007 [0, 1, 2 :: nat] = Num 2
   \<and> dayIndex 432000999 [0, 1, 2 :: nat] = Num 2
   \<and> dayIndex 518400000 [0, 1, 2 :: nat] = Num 0"
proof -
  have ne: "[0, 1, 2 :: nat] \<noteq> []" by simp
  note r = dayIndex_rotation [OF ne, of 432000007]
  have a: "dayIndex 432000007 [0, 1, 2 :: nat] = Num 2"
    using r [THEN conjunct1] by (simp add: msPerDay_def)
  have "dayIndex 432000999 [0, 1, 2 :: nat] = dayIndex 432000007 [0, 1, 2 :: nat]"
    by (rule r [THEN conjunct2, THEN conjunct2, THEN conjunct2, THEN conjunct1, rule_format])
       (simp add: msPerDay_def)
  then have b: "dayIndex 432000999 [0, 1, 2 :: nat] = Num 2"
    using a by simp
  have "dayIndex 518400000 [0, 1, 2 :: nat] =
          (if (432000007 div msPerDay) mod int (length [0, 1, 2 :: nat]) = int (length [0, 1, 2 :: nat]) - 1
           then Num 0 else Num ((432000007 div msPerDay) mod int (length [0, 1, 2 :: nat]) + 1))"
    by (rule r [THEN conjunct2, THEN conjunct2, THEN conjunct2, THEN conjunct2, rule_format, THEN conjunct2])
       (simp add: msPerDay_def)
  then have c: "dayIndex 518400000 [0, 1, 2 :: nat] = Num 0"
    by (simp add: msPerDay_def)
  show ?thesis using ne a b c by simp
qed

section \<open>The cache manager\<close>

lemma getPhotos_hit:
  assumes "photoCollection (store w) = Some c"
  shows "getPhotos shuffle ttl e w =
           (Fulfilled (shuffle (photos c) (name (store w))),
            if ttl \<le> checkedAt e - updatedAt c then fetchAndUpdateCollection_floating w else w)"
  using assms
  by (simp add: getPhotos_def fetchAndUpdateCollection_floating_def
        fetchAndUpdateCollection_request_def)

lemma fetchAndUpdateCollection_Fulfilled:
  assumes "response e = Fulfilled ps"
  shows "fetchAndUpdateCollection e w =
           (Fulfilled \<lparr>photos = ps, updatedAt = fetchedAt e\<rparr>,
            setItem e \<lparr>photos = ps, updatedAt = fetchedAt e\<rparr> (fetchAndUpdateCollection_request w))"
  using assms
  by (simp add: fetchAndUpdateCollection_def fetchAndUpdateCollection_resume_def Let_def)

lemma fetchAndUpdateCollection_Rejected:
  assumes "response e = Rejected err"
  shows "fetchAndUpdateCollection e w = (Rejected err, fetchAndUpdateCollection_request w)"
  using assms
  by (simp add: fetchAndUpdateCollection_def fetchAndUpdateCollection_resume_def)

lemma getPhotos_miss:
  assumes "photoCollection (store w) = None"
  shows "getPhotos shuffle ttl e w =
           (map_promise (\<lambda>cacheData. shuffle (photos cacheData)
                            (name (store (snd (fetchAndUpdateCollection e w)))))
              (fst (fetchAndUpdateCollection e w)),
            snd (fetchAndUpdateCollection e w))"
  using assms by (simp add: getPhotos_def split_beta)

lemma name_setItem:
  "name (store (setItem e cacheData w)) = name (store w)"
  by (simp add: setItem_def)

lemma resume_Rejected_iter:
  assumes "response e = Rejected err"
  shows "((\<lambda>v. snd (fetchAndUpdateCollection_resume e v)) ^^ n) w = w"
  using assms by (induction n) (simp_all add: fetchAndUpdateCollection_resume_def)

lemma resume_Fulfilled_iter:
  assumes "response e = Fulfilled ps" and "writeOk e"
  shows "store (((\<lambda>v. snd (fetchAndUpdateCollection_resume e v)) ^^ Suc n) w) =
           (store w)\<lparr>photoCollection := Some \<lparr>photos = ps, updatedAt = fetchedAt e\<rparr>\<rparr>"
  using assms
  by (induction n) (simp_all add: fetchAndUpdateCollection_resume_def setItem_def Let_def)

text \<open>
  C1. With a cached entry whose age is at least the TTL, \<open>getPhotos\<close> resolves with the
  photos of that entry (through the shuffler) whatever becomes of the request, also when
  it never ends: the request is issued, the rest of \<open>fetchAndUpdateCollection\<close> is left
  floating and the store is as it was. When the floating call later runs on, a response
  (with a write that reaches the store) overwrites the entry with the fresh photos and
  the time of their arrival, and a rejection leaves the store as it was.
\<close>

theorem getPhotos_stale:
  assumes "photoCollection (store w) = Some c" and "ttl \<le> checkedAt e - updatedAt c"
  shows "fst (getPhotos shuffle ttl e w) = Fulfilled (shuffle (photos c) (name (store w)))
       \<and> snd (getPhotos shuffle ttl e w) = w\<lparr>trace := trace w @ [Fetch], floating := Suc (floating w)\<rparr>
       \<and> (\<forall>ps. response e = Fulfilled ps \<and> writeOk e \<longrightarrow>
             store (settle_floating e (snd (getPhotos shuffle ttl e w))) =
               (store w)\<lparr>photoCollection := Some \<lparr>photos = ps, updatedAt = fetchedAt e\<rparr>\<rparr>)
       \<and> (\<forall>err. response e = Rejected err \<longrightarrow>
             store (settle_floating e (snd (getPhotos shuffle ttl e w))) = store w)"
proof -
  let ?w' = "w\<lparr>trace := trace w @ [Fetch], floating := Suc (floating w)\<rparr>"
  have g: "getPhotos shuffle ttl e w = (Fulfilled (shuffle (photos c) (name (store w))), ?w')"
    using assms
    by (simp add: getPhotos_hit fetchAndUpdateCollection_floating_def
          fetchAndUpdateCollection_request_def)
  have ok: "store (settle_floating e ?w') =
              (store w)\<lparr>photoCollection := Some \<lparr>photos = ps, updatedAt = fetchedAt e\<rparr>\<rparr>"
    if "response e = Fulfilled ps" "writeOk e" for ps
    using that resume_Fulfilled_iter [OF that, of "floating w" ?w']
    by (simp add: settle_floating_def)
  have ko: "store (settle_floating e ?w') = store w" if "response e = Rejected err" for err
    using that resume_Rejected_iter [OF that, of "Suc (floating w)" ?w']
    by (simp add: settle_floating_def)
  show ?thesis
    unfolding g fst_conv snd_conv using ok ko by blast
qed

theorem getPhotos_stale_witness:
  "photoCollection (store cached_world) = Some \<lparr>photos = [photo_a, photo_b], updatedAt = 1000\<rparr>
   \<and> (3600000::int) \<le> checkedAt (answering [photo_c] 3601000 True) - 1000
   \<and> fst (getPhotos reversed 3600000 (hanging 3601000) cached_world) = Fulfilled [photo_b, photo_a]
   \<and> fst (getPhotos reversed 3600000 (answering [photo_c] 3601000 True) cached_world) =
        Fulfilled [photo_b, photo_a]
   \<and> photoCollection (store (snd (getPhotos reversed 3600000 (answering [photo_c] 3601000 True) cached_world))) =
        Some \<lparr>photos = [photo_a, photo_b], updatedAt = 1000\<rparr>
   \<and> photoCollection (store (settle_floating (answering [photo_c] 3601000 True)
          (snd (getPhotos reversed 3600000 (answering [photo_c] 3601000 True) cached_world)))) =
        Some \<lparr>photos = [photo_c], updatedAt = 3601500\<rparr>
   \<and> store (settle_floating (failing 3601000)
          (snd (getPhotos reversed 3600000 (failing 3601000) cached_world))) = store cached_world"
proof -
  let ?c = "\<lparr>photos = [photo_a, photo_b], updatedAt = 1000\<rparr>"
  have h1: "photoCollection (store cached_world) = Some ?c"
    by (simp add: cached_world_def)
  have h2: "(3600000::int) \<le> checkedAt (answering [photo_c] 3601000 True) - updatedAt ?c"
    by (simp add: answering_def)
  have h3: "(3600000::int) \<le> checkedAt (failing 3601000) - updatedAt ?c"
    by (simp add: failing_def)
  have h4: "(3600000::int) \<le> checkedAt (hanging 3601000) - updatedAt ?c"
    by (simp add: hanging_def)
  note ok = getPhotos_stale [OF h1 h2, of reversed]
  note ko = getPhotos_stale [OF h1 h3, of reversed]
  note never = getPhotos_stale [OF h1 h4, of reversed]
  have a: "fst (getPhotos reversed 3600000 (hanging 3601000) cached_world) = Fulfilled [photo_b, photo_a]"
    using never [THEN conjunct1] by (simp add: reversed_def)
  have b: "fst (getPhotos reversed 3600000 (answering [photo_c] 3601000 True) cached_world) =
             Fulfilled [photo_b, photo_a]"
    using ok [THEN conjunct1] by (simp add: reversed_def)
  have c: "photoCollection (store (snd (getPhotos reversed 3600000 (answering [photo_c] 3601000 True) cached_world))) =
             Some ?c"
    using ok [THEN conjunct2, THEN conjunct1] h1 by simp
  have "store (settle_floating (answering [photo_c] 3601000 True)
          (snd (getPhotos reversed 3600000 (answering [photo_c] 3601000 True) cached_world))) =
        (store cached_world)\<lparr>photoCollection :=
           Some \<lparr>photos = [photo_c], updatedAt = fetchedAt (answering [photo_c] 3601000 True)\<rparr>\<rparr>"
    by (rule ok [THEN conjunct2, THEN conjunct2, THEN conjunct1, rule_format])
       (simp add: answering_def)
  then have d: "photoCollection (store (settle_floating (answering [photo_c] 3601000 True)
          (snd (getPhotos reversed 3600000 (answering [photo_c] 3601000 True) cached_world)))) =
        Some \<lparr>photos = [photo_c], updatedAt = 3601500\<rparr>"
    by (simp add: answering_def)
  have f: "store (settle_floating (failing 3601000)
          (snd (getPhotos reversed 3600000 (failing 3601000) cached_world))) = store cached_world"
    by (rule ko [THEN conjunct2, THEN conjunct2, THEN conjunct2, rule_format])
       (simp add: failing_def)
  show ?thesis
    using h1 h2 a b c d f by simp
qed

text \<open>
  C9. With a cached entry younger than the TTL, \<open>getPhotos\<close> resolves with the cached
  photos (through the shuffler) and leaves the world as it found it: no request is
  issued, nothing is written to the store, nothing is left floating.
\<close>

theorem getPhotos_fresh:
  assumes "photoCollection (store w) = Some c" and "checkedAt e - updatedAt c < ttl"
  shows "getPhotos shuffle ttl e w = (Fulfilled (shuffle (photos c) (name (store w))), w)"
  using assms by (simp add: getPhotos_hit)

theorem getPhotos_fresh_witness:
  "photoCollection (store cached_world) = Some \<lparr>photos = [photo_a, photo_b], updatedAt = 1000\<rparr>
   \<and> checkedAt (failing 3600999) - 1000 < (3600000::int)
   \<and> getPhotos reversed 3600000 (failing 3600999) cached_world =
        (Fulfilled [photo_b, photo_a], cached_world)"
proof -
  let ?c = "\<lparr>photos = [photo_a, photo_b], updatedAt = 1000\<rparr>"
  have h1: "photoCollection (store cached_world) = Some ?c"
    by (simp add: cached_world_def)
  have h2: "checkedAt (failing 3600999) - updatedAt ?c < (3600000::int)"
    by (simp add: failing_def)
  show ?thesis
    using getPhotos_fresh [OF h1 h2, of reversed] h1 h2 by (simp add: reversed_def)
qed

text \<open>
  C7. With no cached entry and a request that answers, \<open>getPhotos\<close> issues exactly one
  request, hands \<open>storage.setItem\<close> the fetched photos with \<open>updatedAt\<close> the time of
  their arrival, and resolves with those photos (through the shuffler). It resolves in
  the same way whether the write reaches the store or not; the store holds the new entry
  exactly when it does.
\<close>

theorem getPhotos_cache_miss:
  assumes "photoCollection (store w) = None" and "response e = Fulfilled ps"
  shows "fst (getPhotos shuffle ttl e w) = Fulfilled (shuffle ps (name (store w)))
       \<and> trace (snd (getPhotos shuffle ttl e w)) =
           trace w @ [Fetch, SetItem COLLECTION_CACHE_KEY \<lparr>photos = ps, updatedAt = fetchedAt e\<rparr>]
       \<and> count_list (trace (snd (getPhotos shuffle ttl e w))) Fetch = Suc (count_list (trace w) Fetch)
       \<and> store (snd (getPhotos shuffle ttl e w)) =
           (if writeOk e
            then (store w)\<lparr>photoCollection := Some \<lparr>photos = ps, updatedAt = fetchedAt e\<rparr>\<rparr>
            else store w)
       \<and> floating (snd (getPhotos shuffle ttl e w)) = floating w"
  unfolding getPhotos_miss [OF assms(1)] fetchAndUpdateCollection_Fulfilled [OF assms(2)]
  by (simp add: name_setItem) (simp add: setItem_def fetchAndUpdateCollection_request_def)

theorem getPhotos_cache_miss_witness:
  "photoCollection (store empty_world) = None
   \<and> response (answering [photo_a, photo_b] 7000 False) = Fulfilled [photo_a, photo_b]
   \<and> fst (getPhotos reversed 3600000 (answering [photo_a, photo_b] 7000 False) empty_world) =
        Fulfilled [photo_b, photo_a]
   \<and> trace (snd (getPhotos reversed 3600000 (answering [photo_a, photo_b] 7000 False) empty_world)) =
        [Fetch, SetItem ''photoCollection'' \<lparr>photos = [photo_a, photo_b], updatedAt = 7500\<rparr>]
   \<and> store (snd (getPhotos reversed 3600000 (answering [photo_a, photo_b] 7000 False) empty_world)) =
        store empty_world
   \<and> photoCollection (store (snd (getPhotos reversed 3600000 (answering [photo_a, photo_b] 7000 True) empty_world))) =
        Some \<lparr>photos = [photo_a, photo_b], updatedAt = 7500\<rparr>"
proof -
  have h1: "photoCollection (store empty_world) = None"
    by (simp add: empty_world_def)
  have h2: "response (answering [photo_a, photo_b] 7000 ok) = Fulfilled [photo_a, photo_b]" for ok
    by (simp add: answering_def)
  note lost = getPhotos_cache_miss [OF h1 h2, of reversed 3600000 False]
  note kept = getPhotos_cache_miss [OF h1 h2, of reversed 3600000 True]
  have a: "fst (getPhotos reversed 3600000 (answering [photo_a, photo_b] 7000 False) empty_world) =
        Fulfilled [photo_b, photo_a]"
    using lost [THEN conjunct1] by (simp add: reversed_def)
  have b: "trace (snd (getPhotos reversed 3600000 (answering [photo_a, photo_b] 7000 False) empty_world)) =
        [Fetch, SetItem ''photoCollection'' \<lparr>photos = [photo_a, photo_b], updatedAt = 7500\<rparr>]"
    using lost [THEN conjunct2, THEN conjunct1]
    by (simp add: empty_world_def answering_def COLLECTION_CACHE_KEY_def)
  have c: "store (snd (getPhotos reversed 3600000 (answering [photo_a, photo_b] 7000 False) empty_world)) =
        store empty_world"
    using lost [THEN conjunct2, THEN conjunct2, THEN conjunct2, THEN conjunct1]
    by (simp add: answering_def)
  have d: "photoCollection (store (snd (getPhotos reversed 3600000 (answering [photo_a, photo_b] 7000 True) empty_world))) =
        Some \<lparr>photos = [photo_a, photo_b], updatedAt = 7500\<rparr>"
    using kept [THEN conjunct2, THEN conjunct2, THEN conjunct2, THEN conjunct1]
    by (simp add: answering_def)
  show ?thesis
    using h1 h2 a b c d by simp
qed

text \<open>
  C8. With no cached entry and a request that is rejected, \<open>getPhotos\<close> is rejected with
  that error after its one request; the store is unchanged and \<open>storage.setItem\<close> is
  never called. \<open>componentDidMount\<close> logs the message with \<open>console.error\<close>, leaves the
  component as it was and issues no second request.
\<close>

theorem getPhotos_source_unavailable:
  assumes "photoCollection (store w) = None" and "response e = Rejected (SourceUnavailable m)"
  shows "getPhotos shuffle ttl e w = (Rejected (SourceUnavailable m), w\<lparr>trace := trace w @ [Fetch]\<rparr>)
       \<and> componentDidMount dev shuffle ttl e (c, w) =
           (c, w\<lparr>trace := trace w @ [Fetch, ConsoleError m]\<rparr>)"
proof -
  have g: "getPhotos shuffle ttl e w = (Rejected (SourceUnavailable m), w\<lparr>trace := trace w @ [Fetch]\<rparr>)"
    unfolding getPhotos_miss [OF assms(1)] fetchAndUpdateCollection_Rejected [OF assms(2)]
    by (simp add: fetchAndUpdateCollection_request_def)
  show ?thesis
    by (simp add: componentDidMount_def g)
qed

theorem getPhotos_source_unavailable_witness:
  "photoCollection (store empty_world) = None
   \<and> response (failing 7000) = Rejected (SourceUnavailable ''Network Error'')
   \<and> getPhotos reversed 3600000 (failing 7000) empty_world =
        (Rejected (SourceUnavailable ''Network Error''), empty_world\<lparr>trace := [Fetch]\<rparr>)
   \<and> componentDidMount True reversed 3600000 (failing 7000) (initial, empty_world) =
        (initial, empty_world\<lparr>trace := [Fetch, ConsoleError ''Network Error'']\<rparr>)"
proof -
  have h1: "photoCollection (store empty_world) = None"
    by (simp add: empty_world_def)
  have h2: "response (failing 7000) = Rejected (SourceUnavailable ''Network Error'')"
    by (simp add: failing_def)
  have t: "trace empty_world = []"
    by (simp add: empty_world_def)
  show ?thesis
    using getPhotos_source_unavailable [OF h1 h2, of reversed 3600000 True initial] h1 h2 t
    by simp
qed

text \<open>
  C5 as stated fails: a remote source that answers with an empty collection makes
  \<open>getPhotos\<close> resolve with what the shuffler makes of the empty collection, which is
  the empty collection for a shuffler that keeps the photos it is given.
\<close>

theorem getPhotos_empty_counterexample:
  "getPhotos in_order 3600000 (answering [] 7000 True) empty_world =
     (Fulfilled [],
      \<lparr>store = \<lparr>photoCollection = Some \<lparr>photos = [], updatedAt = 7500\<rparr>, name = None\<rparr>,
       trace = [Fetch, SetItem ''photoCollection'' \<lparr>photos = [], updatedAt = 7500\<rparr>],
       floating = 0\<rparr>)
   \<and> (\<forall>shuffle. fst (getPhotos shuffle 3600000 (answering [] 7000 True) empty_world) =
         Fulfilled (shuffle [] None))"
  by (simp add: getPhotos_def fetchAndUpdateCollection_def fetchAndUpdateCollection_resume_def
        fetchAndUpdateCollection_request_def setItem_def answering_def empty_world_def
        in_order_def COLLECTION_CACHE_KEY_def Let_def)

text \<open>
  C5, amended. \<open>getPhotos\<close> checks nothing about the size of the collection: what it
  resolves with is the shuffler's result on the photos of the entry it read, the cached
  one or the one just fetched. Given a shuffler that permutes, it has the photos of that
  entry, each as often as there; so it is empty exactly when that entry's collection is.
\<close>

theorem getPhotos_same_photos:
  assumes "fst (getPhotos shuffle ttl e w) = Fulfilled ps"
  shows "\<exists>src. (case photoCollection (store w) of
                   Some c \<Rightarrow> src = photos c
                 | None \<Rightarrow> response e = Fulfilled src)
              \<and> ps = shuffle src (name (store w))
              \<and> ((\<forall>xs seed. mset (shuffle xs seed) = mset xs) \<longrightarrow>
                   mset ps = mset src \<and> (ps = [] \<longleftrightarrow> src = []))"
proof -
  have perm: "mset (shuffle src seed) = mset src \<and> (shuffle src seed = [] \<longleftrightarrow> src = [])"
    if "\<forall>xs seed. mset (shuffle xs seed) = mset xs" for src seed
    using that by (metis mset_zero_iff)
  show ?thesis
  proof (cases "photoCollection (store w)")
    case None
    show ?thesis
    proof (cases "response e")
      case (Fulfilled src)
      have "ps = shuffle src (name (store w))"
        using assms
        unfolding getPhotos_miss [OF None] fetchAndUpdateCollection_Fulfilled [OF Fulfilled]
        by (simp add: name_setItem fetchAndUpdateCollection_request_def)
      then show ?thesis using None Fulfilled perm by auto
    next
      case (Rejected err)
      then show ?thesis
        using assms unfolding getPhotos_miss [OF None] fetchAndUpdateCollection_Rejected [OF Rejected]
        by simp
    next
      case Pending
      then show ?thesis
        using assms unfolding getPhotos_miss [OF None]
        by (simp add: fetchAndUpdateCollection_def fetchAndUpdateCollection_resume_def)
    qed
  next
    case (Some c)
    have "ps = shuffle (photos c) (name (store w))"
      using assms by (simp add: getPhotos_hit [OF Some])
    then show ?thesis using Some perm by auto
  qed
qed

theorem getPhotos_same_photos_witness:
  "fst (getPhotos reversed 3600000 (answering [photo_a, photo_b, photo_c] 7000 True) empty_world) =
     Fulfilled [photo_c, photo_b, photo_a]
   \<and> (\<forall>xs seed. mset (reversed xs seed) = mset xs)
   \<and> mset [photo_c, photo_b, photo_a] = mset [photo_a, photo_b, photo_c]"
proof -
  have h1: "fst (getPhotos reversed 3600000 (answering [photo_a, photo_b, photo_c] 7000 True) empty_world) =
              Fulfilled [photo_c, photo_b, photo_a]"
    by (simp add: getPhotos_def fetchAndUpdateCollection_def fetchAndUpdateCollection_resume_def
          empty_world_def answering_def reversed_def Let_def)
  have h2: "\<forall>xs seed. mset (reversed xs seed) = mset xs"
    by (simp add: reversed_def)
  from getPhotos_same_photos [OF h1]
  obtain src where "response (answering [photo_a, photo_b, photo_c] 7000 True) = Fulfilled src"
    and "(\<forall>xs seed. mset (reversed xs seed) = mset xs) \<longrightarrow>
           mset [photo_c, photo_b, photo_a] = mset src"
    by (auto simp: empty_world_def)
  then have "mset [photo_c, photo_b, photo_a] = mset [photo_a, photo_b, photo_c]"
    using h2 by (simp add: answering_def)
  then show ?thesis using h1 h2 by simp
qed

section \<open>The preloader\<close>

lemma js_get_Num:
  assumes "0 \<le> k" and "k < int (length arr)"
  shows "js_get arr (Num k) = Some (arr ! nat k)"
  using assms by simp

lemma promise_all_single: "promise_all [p] = p"
  by (cases p) (simp_all add: promise_all_def)

lemma promise_all_pair_resolved:
  "promise_all [p, q] = ResolvedAt t \<longleftrightarrow>
     (\<exists>t1 t2. p = ResolvedAt t1 \<and> q = ResolvedAt t2 \<and> t = max t1 t2)"
  by (cases p; cases q) (auto simp: promise_all_def)

lemma promise_all_pair_rejected:
  "(\<exists>t r. promise_all [p, q] = RejectedAt t r) \<longleftrightarrow>
     (\<exists>t r. p = RejectedAt t r) \<or> (\<exists>t r. q = RejectedAt t r)"
  by (cases p; cases q) (auto simp: promise_all_def)

lemma preloadImage_resolved:
  "preloadImage b u = ResolvedAt t \<longleftrightarrow> b u = Loaded t"
  by (cases "b u") (simp_all add: preloadImage_def)

lemma preloadImage_rejected:
  "(\<exists>t r. preloadImage b u = RejectedAt t r) \<longleftrightarrow> (\<exists>t. b u = Failed t)"
  by (cases "b u") (simp_all add: preloadImage_def)

lemma neighbours:
  assumes "state_photos st \<noteq> []" and "index st = Num i"
  shows "js_get (state_photos st) (modIndex (js_add (index st) (Num 1)) (state_photos st)) =
           Some (state_photos st ! nat ((i + 1) mod int (length (state_photos st))))"
    and "js_get (state_photos st) (modIndex (js_sub (index st) (Num 1)) (state_photos st)) =
           Some (state_photos st ! nat ((i - 1) mod int (length (state_photos st))))"
  using assms by (simp_all add: modIndex_Num)

text \<open>
  C4 as stated fails. In a development build, with three photos and index 1, the image
  at index 2 loads and the one at index 0 fails: the preload is rejected with the failure
  of index 0. If the image at index 0 stalls instead, the preload never settles. In any
  other build the image at index 0 is not asked for at all.
\<close>

theorem preloadNeighboringPhotos_counterexample:
  "preloadNeighboringPhotos True example_browser
      \<lparr>state_photos = [photo_a, photo_b, photo_c], index = Num 1, showSwatch = False\<rparr> =
     (RejectedAt 3 (ImageLoadError (urls_full photo_a)), [urls_full photo_c, urls_full photo_a])
   \<and> example_browser (urls_full photo_c) = Loaded 5
   \<and> preloadNeighboringPhotos True (example_browser (urls_full photo_a := Stalled))
      \<lparr>state_photos = [photo_a, photo_b, photo_c], index = Num 1, showSwatch = False\<rparr> =
     (Unsettled, [urls_full photo_c, urls_full photo_a])
   \<and> preloadNeighboringPhotos False example_browser
      \<lparr>state_photos = [photo_a, photo_b, photo_c], index = Num 1, showSwatch = False\<rparr> =
     (ResolvedAt 5, [urls_full photo_c])"
  by (simp add: preloadNeighboringPhotos_def modIndex_def preloadImage_def promise_all_def
        example_browser_def photo_a_def photo_b_def photo_c_def)

text \<open>
  C4, amended. For a collection that is not empty and an integer index: outside
  development the preload asks for the image at the normalised \<open>index + 1\<close> only and
  settles as that image does; in development it also asks for the image at the normalised
  \<open>index - 1\<close> and joins the two with \<open>Promise.all\<close>, so it resolves when both have
  loaded, at the later of the two times, and is rejected exactly when one of them fails.
\<close>

theorem preloadNeighboringPhotos_settles:
  assumes "state_photos st \<noteq> []" and "index st = Num i"
  shows "(let n = int (length (state_photos st));
              nextUrl = urls_full (state_photos st ! nat ((i + 1) mod n));
              prevUrl = urls_full (state_photos st ! nat ((i - 1) mod n))
          in preloadNeighboringPhotos False b st = (preloadImage b nextUrl, [nextUrl])
           \<and> preloadNeighboringPhotos True b st =
               (promise_all [preloadImage b nextUrl, preloadImage b prevUrl], [nextUrl, prevUrl])
           \<and> (\<forall>t. fst (preloadNeighboringPhotos False b st) = ResolvedAt t \<longleftrightarrow> b nextUrl = Loaded t)
           \<and> ((\<exists>t r. fst (preloadNeighboringPhotos False b st) = RejectedAt t r) \<longleftrightarrow>
                (\<exists>t. b nextUrl = Failed t))
           \<and> (\<forall>t. fst (preloadNeighboringPhotos True b st) = ResolvedAt t \<longleftrightarrow>
                (\<exists>t1 t2. b nextUrl = Loaded t1 \<and> b prevUrl = Loaded t2 \<and> t = max t1 t2))
           \<and> ((\<exists>t r. fst (preloadNeighboringPhotos True b st) = RejectedAt t r) \<longleftrightarrow>
                (\<exists>t. b nextUrl = Failed t) \<or> (\<exists>t. b prevUrl = Failed t)))"
proof -
  define n where "n = int (length (state_photos st))"
  define nextUrl where "nextUrl = urls_full (state_photos st ! nat ((i + 1) mod n))"
  define prevUrl where "prevUrl = urls_full (state_photos st ! nat ((i - 1) mod n))"
  have prod: "preloadNeighboringPhotos False b st = (preloadImage b nextUrl, [nextUrl])"
    by (simp add: preloadNeighboringPhotos_def neighbours [OF assms] promise_all_single
          nextUrl_def n_def)
  have devel: "preloadNeighboringPhotos True b st =
      (promise_all [preloadImage b nextUrl, preloadImage b prevUrl], [nextUrl, prevUrl])"
    by (simp add: preloadNeighboringPhotos_def neighbours [OF assms] nextUrl_def prevUrl_def n_def)
  show ?thesis
    unfolding Let_def n_def [symmetric] nextUrl_def [symmetric] prevUrl_def [symmetric]
    unfolding prod devel fst_conv
    by (simp add: preloadImage_resolved preloadImage_rejected promise_all_pair_resolved
          promise_all_pair_rejected)
qed

theorem preloadNeighboringPhotos_settles_witness:
  "state_photos \<lparr>state_photos = [photo_c, photo_b, photo_c], index = Num 1, showSwatch = False\<rparr> \<noteq> []
   \<and> preloadNeighboringPhotos False example_browser
        \<lparr>state_photos = [photo_c, photo_b, photo_c], index = Num 1, showSwatch = False\<rparr> =
       (ResolvedAt 5, [urls_full photo_c])
   \<and> preloadNeighboringPhotos True example_browser
        \<lparr>state_photos = [photo_c, photo_b, photo_c], index = Num 1, showSwatch = False\<rparr> =
       (ResolvedAt 5, [urls_full photo_c, urls_full photo_c])"
proof -
  let ?st = "\<lparr>state_photos = [photo_c, photo_b, photo_c], index = Num 1, showSwatch = False\<rparr>"
  have h1: "state_photos ?st \<noteq> []" by simp
  have h2: "index ?st = Num 1" by simp
  note r = preloadNeighboringPhotos_settles [OF h1 h2, of example_browser, unfolded Let_def]
  have a: "preloadNeighboringPhotos False example_browser ?st = (ResolvedAt 5, [urls_full photo_c])"
    using r [THEN conjunct1] by (simp add: preloadImage_def example_browser_def)
  have b: "preloadNeighboringPhotos True example_browser ?st =
             (ResolvedAt 5, [urls_full photo_c, urls_full photo_c])"
    using r [THEN conjunct2, THEN conjunct1]
    by (simp add: preloadImage_def example_browser_def promise_all_def)
  show ?thesis using h1 a b by simp
qed

section \<open>The index of the component\<close>

lemma step_index_in_bounds:
  assumes "state_photos (state c) \<noteq> [] \<longrightarrow>
             (\<exists>k. index (state c) = Num k \<and> 0 \<le> k \<and> k < int (length (state_photos (state c))))"
      and "step dev shuffle ttl (c, w) a = (c', w')"
  shows "state_photos (state c') \<noteq> [] \<longrightarrow>
           (\<exists>k. index (state c') = Num k \<and> 0 \<le> k \<and> k < int (length (state_photos (state c'))))"
proof (cases a)
  case (Mount e)
  obtain r w2 where g: "getPhotos shuffle ttl e w = (r, w2)"
    by (cases "getPhotos shuffle ttl e w")
  show ?thesis
  proof (cases r)
    case (Fulfilled ps)
    then have "state c' = (state c)\<lparr>state_photos := ps,
        index := modIndex (sinceEpoch_days (indexedAt e)) ps\<rparr>"
      using assms(2) Mount g
      by (auto simp: componentDidMount_def enableKeyboardShortcuts_def Let_def split: if_splits)
    then show ?thesis
      by (simp add: sinceEpoch_days_def modIndex_Num)
  next
    case (Rejected err)
    then have "c' = c" using assms(2) Mount g by (simp add: componentDidMount_def)
    then show ?thesis using assms(1) by simp
  next
    case Pending
    then have "c' = c" using assms(2) Mount g by (simp add: componentDidMount_def)
    then show ?thesis using assms(1) by simp
  qed
next
  case KeyLeft
  then have "c' = pressLeft c" using assms(2) by simp
  then show ?thesis
    using assms(1) by (auto simp: pressLeft_def modIndex_Num)
next
  case KeyRight
  then have "c' = pressRight c" using assms(2) by simp
  then show ?thesis
    using assms(1) by (auto simp: pressRight_def modIndex_Num)
next
  case (Settle e)
  then have "c' = c" using assms(2) by simp
  then show ?thesis using assms(1) by simp
qed

lemma run_index_in_bounds:
  assumes "state_photos (state c) \<noteq> [] \<longrightarrow>
             (\<exists>k. index (state c) = Num k \<and> 0 \<le> k \<and> k < int (length (state_photos (state c))))"
      and "run dev shuffle ttl (c, w) acts = (c', w')"
  shows "state_photos (state c') \<noteq> [] \<longrightarrow>
           (\<exists>k. index (state c') = Num k \<and> 0 \<le> k \<and> k < int (length (state_photos (state c'))))"
  using assms
proof (induction acts arbitrary: c w)
  case Nil
  then show ?case by (simp add: run_def)
next
  case (Cons a acts)
  obtain c1 w1 where s: "step dev shuffle ttl (c, w) a = (c1, w1)"
    by (cases "step dev shuffle ttl (c, w) a")
  have "run dev shuffle ttl (c1, w1) acts = (c', w')"
    using Cons.prems(2) s by (simp add: run_def)
  moreover note step_index_in_bounds [OF Cons.prems(1) s]
  ultimately show ?case by (rule Cons.IH [rotated])
qed

lemma componentDidMount_dayIndex:
  assumes "getPhotos shuffle ttl e w = (Fulfilled ps, w')"
  shows "state (fst (componentDidMount dev shuffle ttl e (c, w))) =
           (state c)\<lparr>state_photos := ps, index := dayIndex (indexedAt e) ps\<rparr>"
  using assms
  by (simp add: componentDidMount_def enableKeyboardShortcuts_def dayIndex_def Let_def)

lemma getPhoto_in_bounds:
  assumes "index st = Num k" and "0 \<le> k" and "k < int (length (state_photos st))"
  shows "getPhoto False src st = Some (state_photos st ! nat k)"
    and "getPhoto dev src st \<noteq> None"
  using assms by (auto simp: getPhoto_def split: option.splits)

text \<open>
  C10. After any run of mounts, arrow keys and settled background fetches from the
  initial component, a collection that is not empty comes with an index within
  \<open>[0, length)\<close>: every write of the index is a value of \<open>modIndex\<close>. So \<open>getPhoto\<close>,
  which reads \<open>photos[index]\<close> as stored, finds a photo there.
\<close>

theorem index_in_bounds:
  assumes "run dev shuffle ttl (initial, w) acts = (c, w')"
      and "state_photos (state c) \<noteq> []"
  shows "\<exists>k. index (state c) = Num k \<and> 0 \<le> k \<and> k < int (length (state_photos (state c)))
           \<and> getPhoto False src (state c) = Some (state_photos (state c) ! nat k)
           \<and> getPhoto dev' src (state c) \<noteq> None"
proof -
  have "state_photos (state initial) \<noteq> [] \<longrightarrow>
          (\<exists>k. index (state initial) = Num k \<and> 0 \<le> k
             \<and> k < int (length (state_photos (state initial))))"
    by (simp add: initial_def)
  from run_index_in_bounds [OF this assms(1)] assms(2)
  obtain k where k: "index (state c) = Num k" "0 \<le> k" "k < int (length (state_photos (state c)))"
    by blast
  then show ?thesis
    using getPhoto_in_bounds [OF k] by blast
qed

theorem index_in_bounds_witness:
  "run True reversed 3600000 (initial, cached_world) [Mount (failing 3600999), KeyLeft] =
     (mounted [photo_b, photo_a] 1, cached_world)
   \<and> state_photos (state (mounted [photo_b, photo_a] 1)) \<noteq> []
   \<and> getPhoto False None (state (mounted [photo_b, photo_a] 1)) = Some photo_a"
proof -
  have g: "getPhotos reversed 3600000 (failing 3600999) cached_world =
             (Fulfilled [photo_b, photo_a], cached_world)"
    by (simp add: getPhotos_def cached_world_def failing_def reversed_def)
  have m: "componentDidMount True reversed 3600000 (failing 3600999) (initial, cached_world) =
             (mounted [photo_b, photo_a] 0, cached_world)"
    by (simp add: componentDidMount_def g)
       (simp add: enableKeyboardShortcuts_def initial_def mounted_def
          failing_def sinceEpoch_days_def msPerDay_def modIndex_def)
  have h1: "run True reversed 3600000 (initial, cached_world) [Mount (failing 3600999), KeyLeft] =
              (mounted [photo_b, photo_a] 1, cached_world)"
    by (simp add: run_def m) (simp add: pressLeft_def mounted_def modIndex_def)
  have h2: "state_photos (state (mounted [photo_b, photo_a] 1)) \<noteq> []"
    by (simp add: mounted_def)
  from index_in_bounds [OF h1 h2, of None False]
  obtain k where "index (state (mounted [photo_b, photo_a] 1)) = Num k"
    and "getPhoto False None (state (mounted [photo_b, photo_a] 1)) =
           Some (state_photos (state (mounted [photo_b, photo_a] 1)) ! nat k)"
    by blast
  then have "getPhoto False None (state (mounted [photo_b, photo_a] 1)) = Some photo_a"
    by (simp add: mounted_def)
  then show ?thesis using h1 h2 by simp
qed




end
